theory Spec2Isabelle
  imports Complex_Main
begin

section \<open>The DOM as the guard sees it\<close>

text \<open>
  The program is one TypeScript function, \<open>preventScrollBugsIfNeeded\<close>, with a helper
  \<open>hideKeyboradIfNeeded\<close> (the spelling is the source's). It reads and writes the browser's
  DOM, so the embedding makes the part of the DOM it touches explicit.

  A node is an element, with an identity, its class list, its read-only scroll geometry and
  its \<open>parentNode\<close> (\<open>None\<close> is JavaScript's \<open>null\<close>), or it is the document node: the
  parent of the root element, a node that has no \<open>classList\<close> and no parent. The source
  casts every \<open>parentNode\<close> to \<open>HTMLElement\<close>; the cast checks nothing, and the parent
  of the root element is the document. The parent chain of a node is part of the node's
  value, so it is finite and acyclic, as in a DOM tree.
  The scroll offsets, which the guard writes, live in the world, keyed by element identity.
  Offsets, sizes and coordinates are JavaScript numbers, taken as real numbers: the code
  only compares them, subtracts two sizes and subtracts one.
\<close>

datatype fault = TypeError

record geometry =
  scrollHeight :: real
  clientHeight :: real
  scrollWidth :: real
  clientWidth :: real

datatype node =
    Element (nodeId: nat) (classList: "string list") (metrics: geometry) (parentNode: "node option")
  | Document

record touch =
  clientX :: real
  clientY :: real

text \<open>
  An event carries the DOM's flags: whether it can be cancelled, whether it has been,
  whether its propagation is stopped, and the in-passive-listener flag, which the browser
  sets while it runs a passive listener.
\<close>

record touch_event =
  target :: "node option"
  touches :: "touch list"
  cancelable :: bool
  defaultPrevented :: bool
  propagationStopped :: bool
  inPassiveListener :: bool

text \<open>The focused element, as far as \<open>hideKeyboradIfNeeded\<close> inspects it.\<close>

record focused =
  isHTMLElement :: bool
  tagName :: string
  typeAttribute :: "string option"

text \<open>
  The variables of one invocation that the two listeners close over. \<open>fnId\<close> stands for
  the identity of the two function objects the invocation creates: the listener list of the
  body compares callbacks by identity.
\<close>

record closure =
  fnId :: nat
  alwaysPreventPullToRefresh :: bool
  startY :: real
  scrollStartedFromTop :: bool
  hasVerticalScroll :: bool
  hasHorizontalScroll :: bool

datatype event_type = TouchMove | TouchEnd

datatype callback = OnTouchMove closure | OnTouchEnd closure

record listener =
  etype :: event_type
  handler :: callback
  capture :: bool
  isPassive :: bool

record world =
  body :: nat
  scrollTop :: "nat \<Rightarrow> real"
  scrollLeft :: "nat \<Rightarrow> real"
  activeElement :: "focused option"
  listeners :: "listener list"

section \<open>Browser operations the code calls\<close>

text \<open>
  The listener list of the world is the one of \<open>document.body\<close>. The program gives no
  options to \<open>addEventListener\<close>, so a listener gets the DOM standard's default passive
  value: true for a \<open>touchmove\<close> listener on the body, false for a \<open>touchend\<close> listener.
\<close>

fun defaultPassive :: "event_type \<Rightarrow> bool" where
  "defaultPassive TouchMove = True"
| "defaultPassive TouchEnd = False"

text \<open>
  \<open>addEventListener\<close> appends a listener unless the list already holds one with the same
  type, callback and capture flag; \<open>removeEventListener\<close> removes the listener with that
  type, callback and capture flag, and does nothing when there is none. Both are the DOM
  standard's. A call without the third argument has capture \<open>False\<close>.
\<close>

definition sameListener :: "event_type \<Rightarrow> callback \<Rightarrow> bool \<Rightarrow> listener \<Rightarrow> bool" where
  "sameListener ty cb cap l = (etype l = ty \<and> handler l = cb \<and> capture l = cap)"

fun removeFirst :: "('a \<Rightarrow> bool) \<Rightarrow> 'a list \<Rightarrow> 'a list" where
  "removeFirst P [] = []"
| "removeFirst P (x # xs) = (if P x then xs else x # removeFirst P xs)"

definition addEventListener :: "event_type \<Rightarrow> callback \<Rightarrow> bool \<Rightarrow> world \<Rightarrow> world" where
  "addEventListener ty cb cap w =
     (if list_ex (sameListener ty cb cap) (listeners w) then w
      else w\<lparr>listeners := listeners w @
             [\<lparr>etype = ty, handler = cb, capture = cap, isPassive = defaultPassive ty\<rparr>]\<rparr>)"

definition removeEventListener :: "event_type \<Rightarrow> callback \<Rightarrow> bool \<Rightarrow> world \<Rightarrow> world" where
  "removeEventListener ty cb cap w =
     w\<lparr>listeners := removeFirst (sameListener ty cb cap) (listeners w)\<rparr>"

fun callbackId :: "callback \<Rightarrow> nat" where
  "callbackId (OnTouchMove c) = fnId c"
| "callbackId (OnTouchEnd c) = fnId c"

text \<open>A function object created now is different from every callback already registered.\<close>

definition freshId :: "listener list \<Rightarrow> nat" where
  "freshId ls = Suc (foldr max (map (\<lambda>l. callbackId (handler l)) ls) 0)"

text \<open>
  \<open>preventDefault()\<close> sets the canceled flag only when the event is cancelable and the
  listener that is running is not passive; otherwise the call does nothing.
\<close>

definition preventDefault :: "touch_event \<Rightarrow> touch_event" where
  "preventDefault ev =
     (if cancelable ev \<and> \<not> inPassiveListener ev then ev\<lparr>defaultPrevented := True\<rparr> else ev)"

definition stopPropagation :: "touch_event \<Rightarrow> touch_event" where
  "stopPropagation ev = ev\<lparr>propagationStopped := True\<rparr>"

text \<open>
  \<open>String.prototype.toLowerCase\<close> on the bytes of a string: the letters A to Z are mapped
  to a to z, every other byte is kept. No character outside ASCII lower-cases to a letter
  of \<open>input\<close>, \<open>text\<close> or \<open>password\<close>, so the comparisons of the code come out the
  same.
\<close>

definition toLowerChar :: "char \<Rightarrow> char" where
  "toLowerChar c =
     (case map_of (zip ''ABCDEFGHIJKLMNOPQRSTUVWXYZ'' ''abcdefghijklmnopqrstuvwxyz'') c of
        None \<Rightarrow> c
      | Some d \<Rightarrow> d)"

definition toLowerCase :: "string \<Rightarrow> string" where
  "toLowerCase s = map toLowerChar s"

text \<open>\<open>blur()\<close>: the element stops being the focused one.\<close>

definition blur :: "world \<Rightarrow> world" where
  "blur w = w\<lparr>activeElement := None\<rparr>"

section \<open>The program\<close>

text \<open>
  \<open>hideKeyboradIfNeeded\<close>. \<open>document.activeElement\<close> is \<open>null\<close> or an
  element; \<open>getAttribute('type') || ''\<close> is the empty string when the attribute is absent.
\<close>

definition hideKeyboradIfNeeded :: "world \<Rightarrow> world" where
  "hideKeyboradIfNeeded w =
     (case activeElement w of
        None \<Rightarrow> w
      | Some e \<Rightarrow>
          if isHTMLElement e then
            (let elementTag = toLowerCase (tagName e);
                 elementType = toLowerCase (case typeAttribute e of None \<Rightarrow> [] | Some v \<Rightarrow> v)
             in if elementTag = ''input'' \<and> (elementType = ''text'' \<or> elementType = ''password'')
                then blur w else w)
          else w)"

text \<open>
  Step 1, the \<open>while\<close> loop: the result is the final value of \<open>target\<close> with the two
  flags. The test \<open>target !== document.body\<close> comes before the class test, so a marker on
  the body itself is not looked at. Reading \<open>classList.contains\<close> on the document node
  throws a \<open>TypeError\<close>.
\<close>

fun findScrollable :: "nat \<Rightarrow> node option \<Rightarrow> fault + (node option \<times> bool \<times> bool)" where
  "findScrollable b None = Inr (None, False, False)"
| "findScrollable b (Some Document) = Inl TypeError"
| "findScrollable b (Some (Element i cl g p)) =
     (if i = b then Inr (Some (Element i cl g p), False, False)
      else if ''scrollable'' \<in> set cl
        then Inr (Some (Element i cl g p),
                  scrollHeight g > clientHeight g, scrollWidth g > clientWidth g)
      else findScrollable b p)"

text \<open>
  Step 2, the edge correction: the result is \<open>startY\<close>, \<open>scrollStartedFromTop\<close> and the
  world after the write. \<open>event.touches[0].clientY\<close> throws when the event has no touch
  point, before anything is written. A flag is only ever true with \<open>target\<close> an element;
  for completeness, a property read on \<open>null\<close> throws, and on the document node the reads
  are \<open>undefined\<close> and no comparison holds.
\<close>

definition fixScrollEdge ::
  "touch_event \<Rightarrow> node option \<Rightarrow> bool \<Rightarrow> bool \<Rightarrow> world \<Rightarrow> fault + (real \<times> bool \<times> world)" where
  "fixScrollEdge ev tgt hasV hasH w =
     (if hasV then
        (case tgt of
           None \<Rightarrow> Inl TypeError
         | Some Document \<Rightarrow> Inr (0, False, w)
         | Some (Element i cl g p) \<Rightarrow>
             if scrollTop w i = 0 then
               (case touches ev of
                  [] \<Rightarrow> Inl TypeError
                | t # ts \<Rightarrow> Inr (clientY t, True, w\<lparr>scrollTop := (scrollTop w)(i := 1)\<rparr>))
             else if scrollTop w i = scrollHeight g - clientHeight g then
               Inr (0, False,
                    w\<lparr>scrollTop := (scrollTop w)(i := (scrollHeight g - clientHeight g) - 1)\<rparr>)
             else Inr (0, False, w))
      else if hasH then
        (case tgt of
           None \<Rightarrow> Inl TypeError
         | Some Document \<Rightarrow> Inr (0, False, w)
         | Some (Element i cl g p) \<Rightarrow>
             if scrollLeft w i = 0 then
               Inr (0, False, w\<lparr>scrollLeft := (scrollLeft w)(i := 1)\<rparr>)
             else if scrollLeft w i = scrollWidth g - clientWidth g then
               Inr (0, False,
                    w\<lparr>scrollLeft := (scrollLeft w)(i := (scrollWidth g - clientWidth g) - 1)\<rparr>)
             else Inr (0, False, w))
      else Inr (0, False, w))"

text \<open>
  The guard. JavaScript returns nothing; the model returns the world with both listeners
  registered, and with it the variables the two listeners share, so that the handlers of
  this gesture can be named. A fault leaves the world as it was: each throwing read
  comes before the first write. The second parameter is optional in the source and
  \<open>false\<close> when left out; here it is always given.
\<close>

definition preventScrollBugsIfNeeded ::
  "touch_event \<Rightarrow> bool \<Rightarrow> world \<Rightarrow> fault + (closure \<times> world)" where
  "preventScrollBugsIfNeeded ev always w =
     (case findScrollable (body w) (target ev) of
        Inl e \<Rightarrow> Inl e
      | Inr (tgt, hasV, hasH) \<Rightarrow>
          (case fixScrollEdge ev tgt hasV hasH w of
             Inl e \<Rightarrow> Inl e
           | Inr (y, fromTop, w1) \<Rightarrow>
               (let c = \<lparr>fnId = freshId (listeners w1),
                         alwaysPreventPullToRefresh = always,
                         startY = y,
                         scrollStartedFromTop = fromTop,
                         hasVerticalScroll = hasV,
                         hasHorizontalScroll = hasH\<rparr>
                in Inr (c, addEventListener TouchEnd (OnTouchEnd c) True
                             (addEventListener TouchMove (OnTouchMove c) False w1)))))"

text \<open>Step 3.2 of \<open>onTouchMove\<close>, the part after the early return.\<close>

definition alwaysPreventBranch :: "closure \<Rightarrow> touch_event \<Rightarrow> world \<Rightarrow> touch_event \<times> world" where
  "alwaysPreventBranch c ev w =
     (if alwaysPreventPullToRefresh c then
        (if \<not> hasVerticalScroll c \<and> \<not> hasHorizontalScroll c
         then (stopPropagation (preventDefault ev), hideKeyboradIfNeeded w)
         else (ev, w))
      else (ev, w))"

definition onTouchMove :: "closure \<Rightarrow> touch_event \<Rightarrow> world \<Rightarrow> fault + (touch_event \<times> world)" where
  "onTouchMove c ev w =
     (if hasVerticalScroll c \<and> scrollStartedFromTop c then
        (case touches ev of
           [] \<Rightarrow> Inl TypeError
         | t # ts \<Rightarrow>
             if clientY t > startY c
             then Inr (stopPropagation (preventDefault ev), hideKeyboradIfNeeded w)
             else Inr (ev, w))
      else Inr (alwaysPreventBranch c ev w))"

text \<open>
  \<open>onTouchEnd\<close>: both \<open>removeEventListener\<close> calls have two arguments, so both ask for
  a listener with capture \<open>False\<close>.
\<close>

definition onTouchEnd :: "closure \<Rightarrow> world \<Rightarrow> world" where
  "onTouchEnd c w =
     removeEventListener TouchEnd (OnTouchEnd c) False
       (removeEventListener TouchMove (OnTouchMove c) False w)"

text \<open>
  How the browser runs a registered listener on an event (the DOM's inner invoke): the
  in-passive-listener flag is set for the call when the listener is passive and cleared
  after it. The program is never run in another way. An exception of the callback is
  reported by the browser; nothing in the program catches it.
\<close>

definition invoke :: "listener \<Rightarrow> touch_event \<Rightarrow> world \<Rightarrow> fault + (touch_event \<times> world)" where
  "invoke l ev w =
     (case handler l of
        OnTouchMove c \<Rightarrow>
          (case onTouchMove c (ev\<lparr>inPassiveListener := isPassive l\<rparr>) w of
             Inl e \<Rightarrow> Inl e
           | Inr (ev', w') \<Rightarrow> Inr (ev'\<lparr>inPassiveListener := False\<rparr>, w'))
      | OnTouchEnd c \<Rightarrow> Inr (ev, onTouchEnd c w))"

section \<open>The vocabulary of the specification\<close>

text \<open>
  The parent chain of the touch target, the target first. The specification speaks of the
  nearest ancestor carrying the marker, the target itself included, the document body and
  everything above it excluded.
\<close>

fun chain :: "node option \<Rightarrow> node list" where
  "chain None = []"
| "chain (Some Document) = [Document]"
| "chain (Some (Element i cl g p)) = Element i cl g p # chain p"

fun isBody :: "nat \<Rightarrow> node \<Rightarrow> bool" where
  "isBody b Document = False"
| "isBody b (Element i cl g p) = (i = b)"

fun marked :: "node \<Rightarrow> bool" where
  "marked Document = False"
| "marked (Element i cl g p) = (''scrollable'' \<in> set cl)"

definition nearestMarked :: "nat \<Rightarrow> node option \<Rightarrow> node option" where
  "nearestMarked b tgt = find marked (takeWhile (\<lambda>n. \<not> isBody b n) (chain tgt))"

text \<open>The nodes of the chain that lie before the first marked node and before the body.\<close>

definition passed :: "nat \<Rightarrow> node option \<Rightarrow> node list" where
  "passed b tgt = takeWhile (\<lambda>n. \<not> isBody b n \<and> \<not> marked n) (chain tgt)"

text \<open>The two listeners of a gesture, as the guard registers them.\<close>

definition moveListener :: "closure \<Rightarrow> listener" where
  "moveListener c =
     \<lparr>etype = TouchMove, handler = OnTouchMove c, capture = False, isPassive = True\<rparr>"

definition endListener :: "closure \<Rightarrow> listener" where
  "endListener c =
     \<lparr>etype = TouchEnd, handler = OnTouchEnd c, capture = True, isPassive = False\<rparr>"

section \<open>A sample document\<close>

text \<open>
  A small page for the concrete checks: the root element under the document node, the body,
  a marked pane of content height 500 and visible height 200 nested in a farther marked
  pane, a row inside it whose own width overflows, a marked strip that overflows only
  sideways, and an unmarked banner.
\<close>

definition documentElement :: node where
  "documentElement =
     Element 1 [] \<lparr>scrollHeight = 800, clientHeight = 800, scrollWidth = 400, clientWidth = 400\<rparr>
       (Some Document)"

definition bodyElement :: node where
  "bodyElement =
     Element 0 [] \<lparr>scrollHeight = 800, clientHeight = 800, scrollWidth = 400, clientWidth = 400\<rparr>
       (Some documentElement)"

definition outerPane :: node where
  "outerPane =
     Element 2 [''scrollable'']
       \<lparr>scrollHeight = 600, clientHeight = 600, scrollWidth = 900, clientWidth = 400\<rparr>
       (Some bodyElement)"

definition pane :: node where
  "pane =
     Element 3 [''panel'', ''scrollable'']
       \<lparr>scrollHeight = 500, clientHeight = 200, scrollWidth = 300, clientWidth = 300\<rparr>
       (Some outerPane)"

definition row :: node where
  "row =
     Element 4 [''row'']
       \<lparr>scrollHeight = 40, clientHeight = 40, scrollWidth = 600, clientWidth = 300\<rparr>
       (Some pane)"

definition strip :: node where
  "strip =
     Element 5 [''scrollable'']
       \<lparr>scrollHeight = 100, clientHeight = 100, scrollWidth = 900, clientWidth = 300\<rparr>
       (Some bodyElement)"

definition banner :: node where
  "banner =
     Element 6 [''banner'']
       \<lparr>scrollHeight = 50, clientHeight = 50, scrollWidth = 400, clientWidth = 400\<rparr>
       (Some bodyElement)"

definition page :: world where
  "page = \<lparr>body = 0, scrollTop = (\<lambda>i. 0), scrollLeft = (\<lambda>i. 0), activeElement = None,
            listeners = []\<rparr>"

definition touchOn :: "node \<Rightarrow> real list \<Rightarrow> touch_event" where
  "touchOn n ys =
     \<lparr>target = Some n, touches = map (\<lambda>y. \<lparr>clientX = 0, clientY = y\<rparr>) ys,
      cancelable = True, defaultPrevented = False, propagationStopped = False,
      inPassiveListener = False\<rparr>"

definition textField :: focused where
  "textField = \<lparr>isHTMLElement = True, tagName = ''INPUT'', typeAttribute = Some ''Text''\<rparr>"

section \<open>Step 1: the ancestor walk\<close>

lemma findScrollable_nearest:
  "nearestMarked b tgt = Some m \<Longrightarrow>
   m \<noteq> Document \<and>
   findScrollable b tgt =
     Inr (Some m, scrollHeight (metrics m) > clientHeight (metrics m),
          scrollWidth (metrics m) > clientWidth (metrics m))"
  by (induction b tgt rule: findScrollable.induct) (auto simp: nearestMarked_def)

lemma nearest_passed: "nearestMarked b tgt = Some m \<Longrightarrow> Document \<notin> set (passed b tgt)"
  by (induction b tgt rule: findScrollable.induct)
     (auto simp: nearestMarked_def passed_def split: if_splits)

lemma findScrollable_unmarked:
  "nearestMarked b tgt = None \<Longrightarrow>
   findScrollable b tgt =
     (if Document \<in> set (passed b tgt) then Inl TypeError
      else Inr (find (isBody b) (chain tgt), False, False))"
  by (induction b tgt rule: findScrollable.induct) (auto simp: nearestMarked_def passed_def)

lemma findScrollable_fault:
  "(findScrollable b tgt = Inl e) = (Document \<in> set (passed b tgt))"
  by (cases e, induction b tgt rule: findScrollable.induct) (auto simp: passed_def)

lemma findScrollable_flags:
  "findScrollable b tgt = Inr (t, hasV, hasH) \<Longrightarrow> hasV \<or> hasH \<Longrightarrow>
   \<exists>i cl g p. t = Some (Element i cl g p)"
  by (induction b tgt rule: findScrollable.induct) (auto split: if_splits)

section \<open>The listener list\<close>

lemma fresh_gt: "l \<in> set ls \<Longrightarrow> callbackId (handler l) < freshId ls"
  by (induction ls) (auto simp: freshId_def)

lemma fresh_notin:
  "callbackId cb = freshId ls \<Longrightarrow> \<not> list_ex (sameListener ty cb cap) ls"
  using fresh_gt by (fastforce simp: list_ex_iff sameListener_def)

lemma removeFirst_append:
  "\<not> list_ex P xs \<Longrightarrow> removeFirst P (xs @ ys) = xs @ removeFirst P ys"
  by (induction xs) auto

lemma register_fresh:
  assumes "fnId c = freshId (listeners w)"
  shows "addEventListener TouchEnd (OnTouchEnd c) True
           (addEventListener TouchMove (OnTouchMove c) False w) =
         w\<lparr>listeners := listeners w @ [moveListener c, endListener c]\<rparr>"
proof -
  have m: "\<not> list_ex (sameListener TouchMove (OnTouchMove c) False) (listeners w)"
    using assms by (intro fresh_notin) simp
  have e: "\<not> list_ex (sameListener TouchEnd (OnTouchEnd c) True) (listeners w)"
    using assms by (intro fresh_notin) simp
  show ?thesis
    using m e
    by (simp add: addEventListener_def moveListener_def endListener_def sameListener_def)
qed

lemma touchEnd_fresh:
  assumes "fnId c = freshId ls" and "listeners w = ls @ [moveListener c, endListener c]"
  shows "onTouchEnd c w = w\<lparr>listeners := ls @ [endListener c]\<rparr>"
proof -
  have m: "\<not> list_ex (sameListener TouchMove (OnTouchMove c) False) ls"
    using assms(1) by (intro fresh_notin) simp
  have e: "\<not> list_ex (sameListener TouchEnd (OnTouchEnd c) False) ls"
    using assms(1) by (intro fresh_notin) simp
  have "removeFirst (sameListener TouchMove (OnTouchMove c) False) (listeners w) =
      ls @ [endListener c]"
    using m assms(2) by (simp add: removeFirst_append moveListener_def sameListener_def)
  moreover have "removeFirst (sameListener TouchEnd (OnTouchEnd c) False)
                   (ls @ [endListener c]) = ls @ [endListener c]"
    using e by (simp add: removeFirst_append endListener_def sameListener_def)
  ultimately show ?thesis
    by (simp add: onTouchEnd_def removeEventListener_def)
qed

section \<open>Steps 2 and 3: what one invocation returns\<close>

lemma fixScrollEdge_frame:
  "fixScrollEdge ev t hasV hasH w = Inr (y, ft, w1) \<Longrightarrow>
   listeners w1 = listeners w \<and> body w1 = body w \<and> activeElement w1 = activeElement w"
  by (auto simp: fixScrollEdge_def split: if_splits option.splits node.splits list.splits)

lemma guard_returns:
  assumes "findScrollable (body w) (target ev) = Inr (t, hasV, hasH)"
    and "fixScrollEdge ev t hasV hasH w = Inr (y, ft, w1)"
    and "c = \<lparr>fnId = freshId (listeners w), alwaysPreventPullToRefresh = a, startY = y,
               scrollStartedFromTop = ft, hasVerticalScroll = hasV, hasHorizontalScroll = hasH\<rparr>"
  shows "preventScrollBugsIfNeeded ev a w =
         Inr (c, w1\<lparr>listeners := listeners w @ [moveListener c, endListener c]\<rparr>)"
proof -
  have l: "listeners w1 = listeners w"
    using assms(2) fixScrollEdge_frame by blast
  have "fnId c = freshId (listeners w1)"
    using assms(3) l by simp
  from register_fresh [OF this] show ?thesis
    using assms l by (simp add: preventScrollBugsIfNeeded_def Let_def)
qed

lemma guard_faults_walk:
  "findScrollable (body w) (target ev) = Inl e \<Longrightarrow> preventScrollBugsIfNeeded ev a w = Inl e"
  by (simp add: preventScrollBugsIfNeeded_def)

lemma guard_faults_edge:
  "findScrollable (body w) (target ev) = Inr (t, hasV, hasH) \<Longrightarrow>
   fixScrollEdge ev t hasV hasH w = Inl e \<Longrightarrow> preventScrollBugsIfNeeded ev a w = Inl e"
  by (simp add: preventScrollBugsIfNeeded_def)

lemma guard_returned:
  assumes "preventScrollBugsIfNeeded ev a w = Inr (c, w')"
  shows "\<exists>t w1. findScrollable (body w) (target ev) =
                    Inr (t, hasVerticalScroll c, hasHorizontalScroll c) \<and>
                 fixScrollEdge ev t (hasVerticalScroll c) (hasHorizontalScroll c) w =
                    Inr (startY c, scrollStartedFromTop c, w1) \<and>
                 w' = w1\<lparr>listeners := listeners w @ [moveListener c, endListener c]\<rparr> \<and>
                 fnId c = freshId (listeners w) \<and> alwaysPreventPullToRefresh c = a"
proof (cases "findScrollable (body w) (target ev)")
  case (Inl e)
  then show ?thesis using assms guard_faults_walk by fastforce
next
  case (Inr r)
  obtain t hasV hasH where r: "r = (t, hasV, hasH)" by (cases r) auto
  show ?thesis
  proof (cases "fixScrollEdge ev t hasV hasH w")
    case (Inl e)
    then show ?thesis using assms Inr r guard_faults_edge by fastforce
  next
    case (Inr q)
    obtain y ft w1 where q: "q = (y, ft, w1)" by (cases q) auto
    from guard_returns [OF \<open>findScrollable (body w) (target ev) = Inr r\<close> [unfolded r]
        Inr [unfolded q] refl, of a]
    show ?thesis using assms \<open>findScrollable (body w) (target ev) = Inr r\<close> r Inr q by auto
  qed
qed

lemma fixScrollEdge_none: "fixScrollEdge ev t False False w = Inr (0, False, w)"
  by (simp add: fixScrollEdge_def)

lemma fixScrollEdge_vertical:
  "hasV \<Longrightarrow> fixScrollEdge ev (Some (Element i cl g p)) hasV hasH w =
     (if scrollTop w i = 0 then
        (case touches ev of
           [] \<Rightarrow> Inl TypeError
         | t # ts \<Rightarrow> Inr (clientY t, True, w\<lparr>scrollTop := (scrollTop w)(i := 1)\<rparr>))
      else if scrollTop w i = scrollHeight g - clientHeight g then
        Inr (0, False, w\<lparr>scrollTop := (scrollTop w)(i := scrollHeight g - clientHeight g - 1)\<rparr>)
      else Inr (0, False, w))"
  by (simp add: fixScrollEdge_def)

lemma fixScrollEdge_horizontal:
  "\<not> hasV \<Longrightarrow> hasH \<Longrightarrow> fixScrollEdge ev (Some (Element i cl g p)) hasV hasH w =
     (if scrollLeft w i = 0 then Inr (0, False, w\<lparr>scrollLeft := (scrollLeft w)(i := 1)\<rparr>)
      else if scrollLeft w i = scrollWidth g - clientWidth g then
        Inr (0, False, w\<lparr>scrollLeft := (scrollLeft w)(i := scrollWidth g - clientWidth g - 1)\<rparr>)
      else Inr (0, False, w))"
  by (simp add: fixScrollEdge_def)

lemma fixScrollEdge_one_axis:
  "fixScrollEdge ev t hasV hasH w = Inr (y, ft, w1) \<Longrightarrow>
   (hasV \<longrightarrow> scrollLeft w1 = scrollLeft w) \<and> (\<not> hasV \<longrightarrow> scrollTop w1 = scrollTop w \<and> \<not> ft)"
  by (auto simp: fixScrollEdge_def split: if_splits option.splits node.splits list.splits)

section \<open>The keyboard dismisser\<close>

text \<open>
  C7. The dismisser changes the world exactly when an element is focused, it is an HTML
  element, its lower-cased tag name is \<open>input\<close> and it has a type attribute whose
  lower-cased value is \<open>text\<close> or \<open>password\<close>; the change is the blur of that
  element. In every other case, an absent type attribute included, the world is returned
  as it was.
\<close>

theorem hideKeyborad_blurs_iff:
  "(hideKeyboradIfNeeded w \<noteq> w) =
     (\<exists>e. activeElement w = Some e \<and> isHTMLElement e \<and> toLowerCase (tagName e) = ''input'' \<and>
          (\<exists>v. typeAttribute e = Some v \<and>
               (toLowerCase v = ''text'' \<or> toLowerCase v = ''password''))) \<and>
   (hideKeyboradIfNeeded w \<noteq> w \<longrightarrow> hideKeyboradIfNeeded w = blur w)"
proof (cases "activeElement w")
  case None
  then show ?thesis by (simp add: hideKeyboradIfNeeded_def)
next
  case (Some e)
  have changed: "blur w \<noteq> w"
  proof
    assume "blur w = w"
    then have "activeElement (blur w) = activeElement w" by simp
    then show False using Some by (simp add: blur_def)
  qed
  show ?thesis
  proof (cases "typeAttribute e")
    case None
    then show ?thesis
      using Some by (simp add: hideKeyboradIfNeeded_def Let_def toLowerCase_def)
  next
    case (Some v)
    then show ?thesis
      using \<open>activeElement w = Some e\<close> changed by (simp add: hideKeyboradIfNeeded_def Let_def)
  qed
qed

theorem hideKeyborad_blurs_iff_witness:
  "hideKeyboradIfNeeded (page\<lparr>activeElement := Some textField\<rparr>) \<noteq>
     page\<lparr>activeElement := Some textField\<rparr> \<and>
   hideKeyboradIfNeeded (page\<lparr>activeElement := Some textField\<rparr>) = page"
proof -
  let ?w = "page\<lparr>activeElement := Some textField\<rparr>"
  have "\<exists>e. activeElement ?w = Some e \<and> isHTMLElement e \<and> toLowerCase (tagName e) = ''input'' \<and>
          (\<exists>v. typeAttribute e = Some v \<and>
               (toLowerCase v = ''text'' \<or> toLowerCase v = ''password''))"
    by (simp add: textField_def toLowerCase_def toLowerChar_def)
  with hideKeyborad_blurs_iff [of ?w]
  have "hideKeyboradIfNeeded ?w \<noteq> ?w \<and> hideKeyboradIfNeeded ?w = blur ?w"
    by blast
  moreover have "blur ?w = page" by (simp add: blur_def page_def)
  ultimately show ?thesis by metis
qed

section \<open>The ancestor that decides the flags\<close>

text \<open>
  C4. When the touch target has a marked ancestor below the body (the target itself
  counts), the walk ends at the nearest one, and both flags, as the walk computes them and
  as the listeners of the gesture later read them, compare the content size and the visible
  size of that element; the geometry of the target and of marked elements farther up has
  no part in them.
\<close>

theorem flags_from_nearest_marked:
  assumes "nearestMarked (body w) (target ev) = Some (Element i cl g p)"
  shows "findScrollable (body w) (target ev) =
           Inr (Some (Element i cl g p),
                scrollHeight g > clientHeight g, scrollWidth g > clientWidth g) \<and>
         (\<forall>c w'. preventScrollBugsIfNeeded ev a w = Inr (c, w') \<longrightarrow>
            hasVerticalScroll c = (scrollHeight g > clientHeight g) \<and>
            hasHorizontalScroll c = (scrollWidth g > clientWidth g))"
proof -
  have walk: "findScrollable (body w) (target ev) =
           Inr (Some (Element i cl g p),
                scrollHeight g > clientHeight g, scrollWidth g > clientWidth g)"
    using findScrollable_nearest [OF assms] by simp
  moreover have "hasVerticalScroll c = (scrollHeight g > clientHeight g) \<and>
      hasHorizontalScroll c = (scrollWidth g > clientWidth g)"
    if "preventScrollBugsIfNeeded ev a w = Inr (c, w')" for c w'
    using guard_returned [OF that] walk by auto
  ultimately show ?thesis by blast
qed

theorem flags_from_nearest_marked_witness:
  "nearestMarked (body page) (target (touchOn row [100])) = Some pane \<and>
   findScrollable (body page) (target (touchOn row [100])) = Inr (Some pane, True, False)"
proof -
  have n: "nearestMarked (body page) (target (touchOn row [100])) =
      Some (Element 3 [''panel'', ''scrollable'']
        \<lparr>scrollHeight = 500, clientHeight = 200, scrollWidth = 300, clientWidth = 300\<rparr>
        (Some outerPane))"
    by (simp add: nearestMarked_def touchOn_def row_def pane_def page_def)
  from flags_from_nearest_marked [OF n, of False] n show ?thesis
    by (simp add: pane_def)
qed

text \<open>
  C8. When no ancestor of the touch target below the body is marked, the walk yields both
  flags false unless it runs into the document node, where it throws. An invocation that
  returns has both flags false and changes nothing but the listener list: every scroll
  offset, vertical and horizontal, is the one before the call.
\<close>

theorem unmarked_target_untouched:
  assumes "nearestMarked (body w) (target ev) = None"
  shows "if Document \<in> set (passed (body w) (target ev))
         then preventScrollBugsIfNeeded ev a w = Inl TypeError
         else (\<exists>c. preventScrollBugsIfNeeded ev a w =
                      Inr (c, w\<lparr>listeners := listeners w @ [moveListener c, endListener c]\<rparr>) \<and>
                   \<not> hasVerticalScroll c \<and> \<not> hasHorizontalScroll c \<and>
                   \<not> scrollStartedFromTop c)"
proof (cases "Document \<in> set (passed (body w) (target ev))")
  case True
  then show ?thesis
    using findScrollable_unmarked [OF assms] guard_faults_walk by simp
next
  case False
  then have "findScrollable (body w) (target ev) =
      Inr (find (isBody (body w)) (chain (target ev)), False, False)"
    using findScrollable_unmarked [OF assms] by simp
  from guard_returns [OF this fixScrollEdge_none refl] False show ?thesis
    by auto
qed

theorem unmarked_target_untouched_witness:
  "nearestMarked (body page) (target (touchOn banner [100])) = None \<and>
   (\<exists>c w'. preventScrollBugsIfNeeded (touchOn banner [100]) True page = Inr (c, w') \<and>
      scrollTop w' = scrollTop page \<and> scrollLeft w' = scrollLeft page \<and>
      \<not> hasVerticalScroll c \<and> \<not> hasHorizontalScroll c)"
proof -
  have n: "nearestMarked (body page) (target (touchOn banner [100])) = None"
    by (simp add: nearestMarked_def touchOn_def banner_def bodyElement_def page_def)
  have d: "Document \<notin> set (passed (body page) (target (touchOn banner [100])))"
    by (simp add: passed_def touchOn_def banner_def bodyElement_def page_def)
  from unmarked_target_untouched [OF n, of True] d n show ?thesis
    by auto
qed

section \<open>The edge correction\<close>

lemma guard_vertical:
  assumes "nearestMarked (body w) (target ev) = Some (Element i cl g p)"
    and "scrollHeight g > clientHeight g"
    and "fixScrollEdge ev (Some (Element i cl g p)) True (scrollWidth g > clientWidth g) w =
           Inr (y, ft, w1)"
    and "c = \<lparr>fnId = freshId (listeners w), alwaysPreventPullToRefresh = a, startY = y,
               scrollStartedFromTop = ft, hasVerticalScroll = True,
               hasHorizontalScroll = (scrollWidth g > clientWidth g)\<rparr>"
  shows "preventScrollBugsIfNeeded ev a w =
           Inr (c, w1\<lparr>listeners := listeners w @ [moveListener c, endListener c]\<rparr>)"
proof -
  have "findScrollable (body w) (target ev) =
      Inr (Some (Element i cl g p), True, scrollWidth g > clientWidth g)"
    using findScrollable_nearest [OF assms(1)] assms(2) by simp
  from guard_returns [OF this assms(3) assms(4)] show ?thesis .
qed

lemma guard_horizontal:
  assumes "nearestMarked (body w) (target ev) = Some (Element i cl g p)"
    and "\<not> scrollHeight g > clientHeight g"
    and "scrollWidth g > clientWidth g"
    and "fixScrollEdge ev (Some (Element i cl g p)) False True w = Inr (y, ft, w1)"
    and "c = \<lparr>fnId = freshId (listeners w), alwaysPreventPullToRefresh = a, startY = y,
               scrollStartedFromTop = ft, hasVerticalScroll = False,
               hasHorizontalScroll = True\<rparr>"
  shows "preventScrollBugsIfNeeded ev a w =
           Inr (c, w1\<lparr>listeners := listeners w @ [moveListener c, endListener c]\<rparr>)"
proof -
  have "findScrollable (body w) (target ev) = Inr (Some (Element i cl g p), False, True)"
    using findScrollable_nearest [OF assms(1)] assms(2,3) by simp
  from guard_returns [OF this assms(4) assms(5)] show ?thesis .
qed

text \<open>
  C3. Let the nearest marked ancestor have vertical scroll. If its offset is 0 and the
  event has a first touch point, the invocation returns with \<open>startY\<close> that point's Y,
  \<open>scrollStartedFromTop\<close> true and the offset of that element, and of no other, set to 1.
  If its offset is \<open>scrollHeight - clientHeight\<close>, the invocation returns with the offset
  of that element set to one less and \<open>scrollStartedFromTop\<close> false. For every other
  offset the invocation returns with all vertical offsets as they were and
  \<open>scrollStartedFromTop\<close> false. The horizontal offsets are never changed.
\<close>

theorem vertical_edge_nudge:
  assumes "nearestMarked (body w) (target ev) = Some (Element i cl g p)"
    and "scrollHeight g > clientHeight g"
  shows "(scrollTop w i = 0 \<longrightarrow> (\<forall>t ts. touches ev = t # ts \<longrightarrow>
            (\<exists>c w'. preventScrollBugsIfNeeded ev a w = Inr (c, w') \<and>
               startY c = clientY t \<and> scrollStartedFromTop c \<and>
               scrollTop w' = (scrollTop w)(i := 1) \<and> scrollLeft w' = scrollLeft w))) \<and>
         (scrollTop w i = scrollHeight g - clientHeight g \<longrightarrow>
            (\<exists>c w'. preventScrollBugsIfNeeded ev a w = Inr (c, w') \<and>
               \<not> scrollStartedFromTop c \<and>
               scrollTop w' = (scrollTop w)(i := scrollHeight g - clientHeight g - 1) \<and>
               scrollLeft w' = scrollLeft w)) \<and>
         (scrollTop w i \<noteq> 0 \<and> scrollTop w i \<noteq> scrollHeight g - clientHeight g \<longrightarrow>
            (\<exists>c w'. preventScrollBugsIfNeeded ev a w = Inr (c, w') \<and>
               \<not> scrollStartedFromTop c \<and>
               scrollTop w' = scrollTop w \<and> scrollLeft w' = scrollLeft w))"
proof (intro conjI impI allI)
  fix t ts
  assume "scrollTop w i = 0" and "touches ev = t # ts"
  then have "fixScrollEdge ev (Some (Element i cl g p)) True (scrollWidth g > clientWidth g) w =
      Inr (clientY t, True, w\<lparr>scrollTop := (scrollTop w)(i := 1)\<rparr>)"
    by (simp add: fixScrollEdge_vertical)
  from guard_vertical [OF assms this refl, of a]
  show "\<exists>c w'. preventScrollBugsIfNeeded ev a w = Inr (c, w') \<and>
               startY c = clientY t \<and> scrollStartedFromTop c \<and>
               scrollTop w' = (scrollTop w)(i := 1) \<and> scrollLeft w' = scrollLeft w"
    by simp
next
  assume "scrollTop w i = scrollHeight g - clientHeight g"
  with assms(2) have "fixScrollEdge ev (Some (Element i cl g p)) True
        (scrollWidth g > clientWidth g) w =
      Inr (0, False, w\<lparr>scrollTop := (scrollTop w)(i := scrollHeight g - clientHeight g - 1)\<rparr>)"
    by (simp add: fixScrollEdge_vertical)
  from guard_vertical [OF assms this refl, of a]
  show "\<exists>c w'. preventScrollBugsIfNeeded ev a w = Inr (c, w') \<and>
               \<not> scrollStartedFromTop c \<and>
               scrollTop w' = (scrollTop w)(i := scrollHeight g - clientHeight g - 1) \<and>
               scrollLeft w' = scrollLeft w"
    by simp
next
  assume "scrollTop w i \<noteq> 0 \<and> scrollTop w i \<noteq> scrollHeight g - clientHeight g"
  then have "fixScrollEdge ev (Some (Element i cl g p)) True (scrollWidth g > clientWidth g) w =
      Inr (0, False, w)"
    by (simp add: fixScrollEdge_vertical)
  from guard_vertical [OF assms this refl, of a]
  show "\<exists>c w'. preventScrollBugsIfNeeded ev a w = Inr (c, w') \<and>
               \<not> scrollStartedFromTop c \<and>
               scrollTop w' = scrollTop w \<and> scrollLeft w' = scrollLeft w"
    by simp
qed

theorem vertical_edge_nudge_witness:
  "nearestMarked (body page) (target (touchOn row [120])) = Some pane \<and>
   (\<exists>c w'. preventScrollBugsIfNeeded (touchOn row [120]) False page = Inr (c, w') \<and>
      startY c = 120 \<and> scrollStartedFromTop c \<and> scrollTop w' 3 = 1) \<and>
   (\<exists>c w'. preventScrollBugsIfNeeded (touchOn row [120]) False
              (page\<lparr>scrollTop := (scrollTop page)(3 := 300)\<rparr>) = Inr (c, w') \<and>
      \<not> scrollStartedFromTop c \<and> scrollTop w' 3 = 299) \<and>
   (\<exists>c w'. preventScrollBugsIfNeeded (touchOn row [120]) False
              (page\<lparr>scrollTop := (scrollTop page)(3 := 150)\<rparr>) = Inr (c, w') \<and>
      \<not> scrollStartedFromTop c \<and> scrollTop w' 3 = 150)"
proof -
  let ?g = "\<lparr>scrollHeight = 500, clientHeight = 200, scrollWidth = 300, clientWidth = 300\<rparr>"
  let ?ev = "touchOn row [120]"
  have n: "nearestMarked (body w) (target ?ev) =
      Some (Element 3 [''panel'', ''scrollable''] ?g (Some outerPane))" if "body w = 0" for w
    using that by (simp add: nearestMarked_def touchOn_def row_def pane_def)
  have g: "scrollHeight ?g > clientHeight ?g" by simp
  have t: "touches ?ev = \<lparr>clientX = 0, clientY = 120\<rparr> # []" by (simp add: touchOn_def)
  have b: "body page = 0" by (simp add: page_def)
  have "\<exists>c w'. preventScrollBugsIfNeeded ?ev False page = Inr (c, w') \<and>
      startY c = 120 \<and> scrollStartedFromTop c \<and> scrollTop w' 3 = 1"
    using vertical_edge_nudge [OF n [OF b] g, of False] t by (auto simp: page_def)
  moreover have "\<exists>c w'. preventScrollBugsIfNeeded ?ev False
              (page\<lparr>scrollTop := (scrollTop page)(3 := 300)\<rparr>) = Inr (c, w') \<and>
      \<not> scrollStartedFromTop c \<and> scrollTop w' 3 = 299"
    using vertical_edge_nudge [OF n g, of "page\<lparr>scrollTop := (scrollTop page)(3 := 300)\<rparr>" False]
    by (auto simp: page_def)
  moreover have "\<exists>c w'. preventScrollBugsIfNeeded ?ev False
              (page\<lparr>scrollTop := (scrollTop page)(3 := 150)\<rparr>) = Inr (c, w') \<and>
      \<not> scrollStartedFromTop c \<and> scrollTop w' 3 = 150"
    using vertical_edge_nudge [OF n g, of "page\<lparr>scrollTop := (scrollTop page)(3 := 150)\<rparr>" False]
    by (auto simp: page_def)
  moreover have "nearestMarked (body page) (target ?ev) = Some pane"
    using n [OF b] by (simp add: pane_def)
  ultimately show ?thesis by blast
qed

text \<open>
  C6. An invocation that returns leaves the horizontal offsets alone whenever the vertical
  flag is true, whatever the horizontal flag and offset, and leaves the vertical offsets
  alone whenever the vertical flag is false: at most one axis is written. When the nearest
  marked ancestor has horizontal scroll and no vertical scroll, the invocation returns and
  its \<open>scrollLeft\<close> goes from 0 to 1, from \<open>scrollWidth - clientWidth\<close> to one less, and
  is kept otherwise.
\<close>

theorem one_axis_nudged:
  "(\<forall>c w'. preventScrollBugsIfNeeded ev a w = Inr (c, w') \<longrightarrow>
      (hasVerticalScroll c \<longrightarrow> scrollLeft w' = scrollLeft w) \<and>
      (\<not> hasVerticalScroll c \<longrightarrow> scrollTop w' = scrollTop w) \<and>
      (scrollTop w' = scrollTop w \<or> scrollLeft w' = scrollLeft w)) \<and>
   (\<forall>i cl g p. nearestMarked (body w) (target ev) = Some (Element i cl g p) \<and>
      \<not> scrollHeight g > clientHeight g \<and> scrollWidth g > clientWidth g \<longrightarrow>
      (\<exists>c w'. preventScrollBugsIfNeeded ev a w = Inr (c, w') \<and>
         scrollTop w' = scrollTop w \<and>
         scrollLeft w' =
           (if scrollLeft w i = 0 then (scrollLeft w)(i := 1)
            else if scrollLeft w i = scrollWidth g - clientWidth g
              then (scrollLeft w)(i := scrollWidth g - clientWidth g - 1)
            else scrollLeft w)))"
proof (intro conjI allI impI)
  fix c w'
  assume r: "preventScrollBugsIfNeeded ev a w = Inr (c, w')"
  from guard_returned [OF r] obtain t w1 where
    e: "fixScrollEdge ev t (hasVerticalScroll c) (hasHorizontalScroll c) w =
          Inr (startY c, scrollStartedFromTop c, w1)"
    and w': "w' = w1\<lparr>listeners := listeners w @ [moveListener c, endListener c]\<rparr>"
    by blast
  from fixScrollEdge_one_axis [OF e] w'
  show "hasVerticalScroll c \<Longrightarrow> scrollLeft w' = scrollLeft w"
    and "\<not> hasVerticalScroll c \<Longrightarrow> scrollTop w' = scrollTop w"
    and "scrollTop w' = scrollTop w \<or> scrollLeft w' = scrollLeft w"
    by auto
next
  fix i cl g p
  assume h: "nearestMarked (body w) (target ev) = Some (Element i cl g p) \<and>
      \<not> scrollHeight g > clientHeight g \<and> scrollWidth g > clientWidth g"
  let ?l = "if scrollLeft w i = 0 then (scrollLeft w)(i := 1)
            else if scrollLeft w i = scrollWidth g - clientWidth g
              then (scrollLeft w)(i := scrollWidth g - clientWidth g - 1)
            else scrollLeft w"
  have e: "fixScrollEdge ev (Some (Element i cl g p)) False True w =
      Inr (0, False, w\<lparr>scrollLeft := ?l\<rparr>)"
    by (simp add: fixScrollEdge_horizontal)
  from guard_horizontal [OF _ _ _ e refl, of a] h
  show "\<exists>c w'. preventScrollBugsIfNeeded ev a w = Inr (c, w') \<and>
         scrollTop w' = scrollTop w \<and>
         scrollLeft w' =
           (if scrollLeft w i = 0 then (scrollLeft w)(i := 1)
            else if scrollLeft w i = scrollWidth g - clientWidth g
              then (scrollLeft w)(i := scrollWidth g - clientWidth g - 1)
            else scrollLeft w)"
    by simp
qed

theorem one_axis_nudged_witness:
  "nearestMarked (body page) (target (touchOn strip [50])) = Some strip \<and>
   (\<exists>c w'. preventScrollBugsIfNeeded (touchOn strip [50]) False page = Inr (c, w') \<and>
      scrollTop w' = scrollTop page \<and> scrollLeft w' 5 = 1) \<and>
   (\<exists>c w'. preventScrollBugsIfNeeded (touchOn strip [50]) False
              (page\<lparr>scrollLeft := (scrollLeft page)(5 := 600)\<rparr>) = Inr (c, w') \<and>
      scrollLeft w' 5 = 599)"
proof -
  let ?g = "\<lparr>scrollHeight = 100, clientHeight = 100, scrollWidth = 900, clientWidth = 300\<rparr>"
  let ?ev = "touchOn strip [50]"
  let ?w = "page\<lparr>scrollLeft := (scrollLeft page)(5 := 600)\<rparr>"
  have n: "nearestMarked (body w) (target ?ev) =
      Some (Element 5 [''scrollable''] ?g (Some bodyElement)) \<and>
      \<not> scrollHeight ?g > clientHeight ?g \<and> scrollWidth ?g > clientWidth ?g"
    if "body w = 0" for w
    using that by (simp add: nearestMarked_def touchOn_def strip_def)
  have b: "body page = 0" "body ?w = 0" by (simp_all add: page_def)
  have "\<exists>c w'. preventScrollBugsIfNeeded ?ev False page = Inr (c, w') \<and>
      scrollTop w' = scrollTop page \<and> scrollLeft w' 5 = 1"
    using one_axis_nudged [of ?ev False page] n [OF b(1)] by (auto simp: page_def)
  moreover have "\<exists>c w'. preventScrollBugsIfNeeded ?ev False ?w = Inr (c, w') \<and>
      scrollLeft w' 5 = 599"
    using one_axis_nudged [of ?ev False ?w] n [OF b(2)] by (auto simp: page_def)
  moreover have "nearestMarked (body page) (target ?ev) = Some strip"
    using n [OF b(1)] by (simp add: strip_def)
  ultimately show ?thesis by blast
qed

section \<open>The touchmove handler\<close>

lemma onTouchMove_top:
  "hasVerticalScroll c \<Longrightarrow> scrollStartedFromTop c \<Longrightarrow>
   onTouchMove c mv w =
     (case touches mv of
        [] \<Rightarrow> Inl TypeError
      | t # ts \<Rightarrow>
          if clientY t > startY c
          then Inr (stopPropagation (preventDefault mv), hideKeyboradIfNeeded w)
          else Inr (mv, w))"
  by (simp add: onTouchMove_def)

lemma onTouchMove_else:
  "\<not> (hasVerticalScroll c \<and> scrollStartedFromTop c) \<Longrightarrow>
   onTouchMove c mv w = Inr (alwaysPreventBranch c mv w)"
  by (auto simp: onTouchMove_def)

lemma alwaysPreventBranch_eq:
  "alwaysPreventBranch c mv w =
     (if alwaysPreventPullToRefresh c \<and> \<not> hasVerticalScroll c \<and> \<not> hasHorizontalScroll c
      then (stopPropagation (preventDefault mv), hideKeyboradIfNeeded w) else (mv, w))"
  by (simp add: alwaysPreventBranch_def)

text \<open>
  What the two suppressing branches do to an event depends on the listener they run in.
  In a listener that is not passive, a cancelable event leaves with its default prevented
  and its propagation stopped. In a passive listener only the propagation is stopped.
\<close>

lemma suppress_active:
  "cancelable mv \<Longrightarrow> \<not> inPassiveListener mv \<Longrightarrow>
   stopPropagation (preventDefault mv) =
     mv\<lparr>defaultPrevented := True, propagationStopped := True\<rparr>"
  by (simp add: stopPropagation_def preventDefault_def)

lemma suppress_passive:
  "inPassiveListener mv \<Longrightarrow> stopPropagation (preventDefault mv) = mv\<lparr>propagationStopped := True\<rparr>"
  by (simp add: stopPropagation_def preventDefault_def)

lemma onTouchMove_passive_default:
  assumes "inPassiveListener mv" and "onTouchMove c mv w = Inr (mv', w')"
  shows "defaultPrevented mv' = defaultPrevented mv"
proof (cases "hasVerticalScroll c \<and> scrollStartedFromTop c")
  case True
  then show ?thesis
    using assms
    by (auto simp: onTouchMove_top suppress_passive split: list.splits if_splits)
next
  case False
  then show ?thesis
    using assms
    by (auto simp: onTouchMove_else alwaysPreventBranch_eq suppress_passive split: if_splits)
qed

text \<open>
  The touchmove listener of every gesture is passive, so no touchmove event that the
  browser hands to it comes back cancelled, whatever the flags of the gesture.
\<close>

lemma move_listener_never_cancels:
  assumes "invoke (moveListener c) mv w = Inr (mv', w')"
  shows "defaultPrevented mv' = defaultPrevented mv"
proof -
  from assms obtain mv2 where
    r: "onTouchMove c (mv\<lparr>inPassiveListener := True\<rparr>) w = Inr (mv2, w')"
    and m: "mv' = mv2\<lparr>inPassiveListener := False\<rparr>"
    by (auto simp: invoke_def moveListener_def split: sum.splits)
  have "defaultPrevented mv2 = defaultPrevented (mv\<lparr>inPassiveListener := True\<rparr>)"
    by (rule onTouchMove_passive_default [OF _ r]) simp
  with m show ?thesis by simp
qed

text \<open>
  C1, evaluated. On the sample page the row is touched at Y 120 while its pane is at
  offset 0: the invocation returns with \<open>scrollStartedFromTop\<close> true and \<open>startY\<close> 120,
  and its touchmove listener on the body is passive. The browser then hands that listener
  a cancelable touchmove at Y 121 while a text field has the focus. The handler takes the
  suppressing branch: the propagation is stopped and the field is blurred, but the event
  comes back with its default not prevented, since \<open>preventDefault()\<close> does nothing in a
  passive listener. At Y 120 the event and the world come back as they were.
\<close>

theorem pull_down_default_not_prevented:
  "\<exists>c w'. preventScrollBugsIfNeeded (touchOn row [120]) False page = Inr (c, w') \<and>
      listeners w' = [moveListener c, endListener c] \<and> isPassive (moveListener c) \<and>
      scrollStartedFromTop c \<and> startY c = 120 \<and>
      (\<exists>mv wm. invoke (moveListener c) (touchOn row [121])
                  (w'\<lparr>activeElement := Some textField\<rparr>) = Inr (mv, wm) \<and>
         \<not> defaultPrevented mv \<and> propagationStopped mv \<and> activeElement wm = None) \<and>
      invoke (moveListener c) (touchOn row [120]) (w'\<lparr>activeElement := Some textField\<rparr>) =
        Inr (touchOn row [120], w'\<lparr>activeElement := Some textField\<rparr>)"
proof -
  let ?g = "\<lparr>scrollHeight = 500, clientHeight = 200, scrollWidth = 300, clientWidth = 300\<rparr>"
  let ?ev = "touchOn row [120]"
  let ?c = "\<lparr>fnId = freshId (listeners page), alwaysPreventPullToRefresh = False,
             startY = 120, scrollStartedFromTop = True, hasVerticalScroll = True,
             hasHorizontalScroll = (scrollWidth ?g > clientWidth ?g)\<rparr>"
  let ?w1 = "page\<lparr>scrollTop := (scrollTop page)(3 := 1)\<rparr>"
  let ?w' = "?w1\<lparr>listeners := listeners page @ [moveListener ?c, endListener ?c]\<rparr>"
  have n: "nearestMarked (body page) (target ?ev) =
      Some (Element 3 [''panel'', ''scrollable''] ?g (Some outerPane))"
    by (simp add: nearestMarked_def touchOn_def row_def pane_def page_def)
  have g: "scrollHeight ?g > clientHeight ?g" by simp
  have e: "fixScrollEdge ?ev (Some (Element 3 [''panel'', ''scrollable''] ?g (Some outerPane)))
      True (scrollWidth ?g > clientWidth ?g) page = Inr (120, True, ?w1)"
    by (simp add: fixScrollEdge_def touchOn_def page_def)
  from guard_vertical [OF n g e refl, of False]
  have r: "preventScrollBugsIfNeeded ?ev False page = Inr (?c, ?w')" .
  have l: "listeners ?w' = [moveListener ?c, endListener ?c]"
    by (simp add: page_def)
  have p: "isPassive (moveListener ?c)" by (simp add: moveListener_def)
  have k: "activeElement (hideKeyboradIfNeeded (?w'\<lparr>activeElement := Some textField\<rparr>)) = None"
    by (simp add: hideKeyboradIfNeeded_def textField_def toLowerCase_def toLowerChar_def
        blur_def)
  have m1: "\<exists>mv wm. invoke (moveListener ?c) (touchOn row [121])
                  (?w'\<lparr>activeElement := Some textField\<rparr>) = Inr (mv, wm) \<and>
         \<not> defaultPrevented mv \<and> propagationStopped mv \<and> activeElement wm = None"
    using k
    by (simp add: invoke_def moveListener_def onTouchMove_def touchOn_def
        stopPropagation_def preventDefault_def)
  have m0: "invoke (moveListener ?c) (touchOn row [120]) (?w'\<lparr>activeElement := Some textField\<rparr>) =
        Inr (touchOn row [120], ?w'\<lparr>activeElement := Some textField\<rparr>)"
    by (simp add: invoke_def moveListener_def onTouchMove_def touchOn_def)
  from r l p m1 m0 show ?thesis
    by (intro exI [of _ ?c] exI [of _ ?w']) simp
qed

text \<open>
  C2, evaluated. The banner has no marked ancestor; it is touched with
  \<open>alwaysPreventPullToRefresh\<close> true. Both flags are false, and the browser hands the
  gesture's passive touchmove listener a cancelable touchmove while a text field has the
  focus. The always-prevent branch runs: the propagation is stopped and the field is
  blurred, but the event comes back with its default not prevented. A touch on the
  strip, whose horizontal flag is true, gets event and world back as they were.
\<close>

theorem always_prevent_default_not_prevented:
  "(\<exists>c w'. preventScrollBugsIfNeeded (touchOn banner [100]) True page = Inr (c, w') \<and>
      \<not> hasVerticalScroll c \<and> \<not> hasHorizontalScroll c \<and>
      listeners w' = [moveListener c, endListener c] \<and> isPassive (moveListener c) \<and>
      (\<exists>mv wm. invoke (moveListener c) (touchOn banner [90])
                  (w'\<lparr>activeElement := Some textField\<rparr>) = Inr (mv, wm) \<and>
         \<not> defaultPrevented mv \<and> propagationStopped mv \<and> activeElement wm = None)) \<and>
   (\<exists>c w'. preventScrollBugsIfNeeded (touchOn strip [100]) True page = Inr (c, w') \<and>
      hasHorizontalScroll c \<and>
      invoke (moveListener c) (touchOn strip [90]) (w'\<lparr>activeElement := Some textField\<rparr>) =
        Inr (touchOn strip [90], w'\<lparr>activeElement := Some textField\<rparr>))"
proof -
  let ?c = "\<lparr>fnId = freshId (listeners page), alwaysPreventPullToRefresh = True,
             startY = 0, scrollStartedFromTop = False, hasVerticalScroll = False,
             hasHorizontalScroll = False\<rparr>"
  let ?w' = "page\<lparr>listeners := listeners page @ [moveListener ?c, endListener ?c]\<rparr>"
  have "findScrollable (body page) (target (touchOn banner [100])) =
      Inr (Some bodyElement, False, False)"
    by (simp add: touchOn_def banner_def bodyElement_def page_def)
  from guard_returns [OF this fixScrollEdge_none refl, of True]
  have r: "preventScrollBugsIfNeeded (touchOn banner [100]) True page = Inr (?c, ?w')" .
  have l: "listeners ?w' = [moveListener ?c, endListener ?c]"
    by (simp add: page_def)
  have p: "isPassive (moveListener ?c)" by (simp add: moveListener_def)
  have k: "activeElement (hideKeyboradIfNeeded (?w'\<lparr>activeElement := Some textField\<rparr>)) = None"
    by (simp add: hideKeyboradIfNeeded_def textField_def toLowerCase_def toLowerChar_def
        blur_def)
  have m: "\<exists>mv wm. invoke (moveListener ?c) (touchOn banner [90])
                  (?w'\<lparr>activeElement := Some textField\<rparr>) = Inr (mv, wm) \<and>
         \<not> defaultPrevented mv \<and> propagationStopped mv \<and> activeElement wm = None"
    using k
    by (simp add: invoke_def moveListener_def onTouchMove_def alwaysPreventBranch_def
        touchOn_def stopPropagation_def preventDefault_def)
  have 1: "\<exists>c w'. preventScrollBugsIfNeeded (touchOn banner [100]) True page = Inr (c, w') \<and>
      \<not> hasVerticalScroll c \<and> \<not> hasHorizontalScroll c \<and>
      listeners w' = [moveListener c, endListener c] \<and> isPassive (moveListener c) \<and>
      (\<exists>mv wm. invoke (moveListener c) (touchOn banner [90])
                  (w'\<lparr>activeElement := Some textField\<rparr>) = Inr (mv, wm) \<and>
         \<not> defaultPrevented mv \<and> propagationStopped mv \<and> activeElement wm = None)"
    using r l p m by (intro exI [of _ ?c] exI [of _ ?w']) simp
  let ?d = "\<lparr>fnId = freshId (listeners page), alwaysPreventPullToRefresh = True,
             startY = 0, scrollStartedFromTop = False, hasVerticalScroll = False,
             hasHorizontalScroll = True\<rparr>"
  let ?v1 = "page\<lparr>scrollLeft := (scrollLeft page)(5 := 1)\<rparr>"
  let ?v = "?v1\<lparr>listeners := listeners page @ [moveListener ?d, endListener ?d]\<rparr>"
  have "findScrollable (body page) (target (touchOn strip [100])) = Inr (Some strip, False, True)"
    by (simp add: touchOn_def strip_def page_def)
  moreover have "fixScrollEdge (touchOn strip [100]) (Some strip) False True page =
      Inr (0, False, ?v1)"
    by (simp add: fixScrollEdge_def strip_def page_def)
  ultimately have q: "preventScrollBugsIfNeeded (touchOn strip [100]) True page = Inr (?d, ?v)"
    by (rule guard_returns) simp
  have "invoke (moveListener ?d) (touchOn strip [90]) (?v\<lparr>activeElement := Some textField\<rparr>) =
        Inr (touchOn strip [90], ?v\<lparr>activeElement := Some textField\<rparr>)"
    by (simp add: invoke_def moveListener_def onTouchMove_def alwaysPreventBranch_def
        touchOn_def)
  with q have 2: "\<exists>c w'. preventScrollBugsIfNeeded (touchOn strip [100]) True page = Inr (c, w') \<and>
      hasHorizontalScroll c \<and>
      invoke (moveListener c) (touchOn strip [90]) (w'\<lparr>activeElement := Some textField\<rparr>) =
        Inr (touchOn strip [90], w'\<lparr>activeElement := Some textField\<rparr>)"
    by (intro exI [of _ ?d] exI [of _ ?v]) simp
  from 1 2 show ?thesis by blast
qed

text \<open>
  C10. Let the nearest marked ancestor have horizontal scroll and no vertical scroll. Then
  the invocation returns, whatever the \<open>alwaysPreventPullToRefresh\<close> flag; it changes
  nothing in the world but the horizontal offsets and the listener list; and its touchmove
  handler returns every event and every world exactly as they came, an event without
  touch points included: nothing is suppressed and the keyboard dismisser is not run.
\<close>

theorem horizontal_only_never_suppressed:
  assumes "nearestMarked (body w) (target ev) = Some (Element i cl g p)"
    and "\<not> scrollHeight g > clientHeight g"
    and "scrollWidth g > clientWidth g"
  shows "\<exists>c w'. preventScrollBugsIfNeeded ev a w = Inr (c, w') \<and>
           \<not> hasVerticalScroll c \<and> hasHorizontalScroll c \<and>
           w' = w\<lparr>scrollLeft := scrollLeft w',
                   listeners := listeners w @ [moveListener c, endListener c]\<rparr> \<and>
           (\<forall>mv w2. onTouchMove c mv w2 = Inr (mv, w2))"
proof -
  let ?l = "if scrollLeft w i = 0 then (scrollLeft w)(i := 1)
            else if scrollLeft w i = scrollWidth g - clientWidth g
              then (scrollLeft w)(i := scrollWidth g - clientWidth g - 1)
            else scrollLeft w"
  let ?c = "\<lparr>fnId = freshId (listeners w), alwaysPreventPullToRefresh = a, startY = 0,
             scrollStartedFromTop = False, hasVerticalScroll = False,
             hasHorizontalScroll = True\<rparr>"
  have "fixScrollEdge ev (Some (Element i cl g p)) False True w =
      Inr (0, False, w\<lparr>scrollLeft := ?l\<rparr>)"
    by (simp add: fixScrollEdge_horizontal)
  from guard_horizontal [OF assms this refl, of a]
  have r: "preventScrollBugsIfNeeded ev a w =
      Inr (?c, w\<lparr>scrollLeft := ?l, listeners := listeners w @ [moveListener ?c, endListener ?c]\<rparr>)"
    by simp
  have "onTouchMove ?c mv w2 = Inr (mv, w2)" for mv w2
    by (simp add: onTouchMove_else alwaysPreventBranch_eq)
  with r show ?thesis by simp
qed

theorem horizontal_only_never_suppressed_witness:
  "nearestMarked (body page) (target (touchOn strip [50])) = Some strip \<and>
   (\<exists>c w'. preventScrollBugsIfNeeded (touchOn strip [50]) True page = Inr (c, w') \<and>
      onTouchMove c (touchOn strip [400]) (page\<lparr>activeElement := Some textField\<rparr>) =
        Inr (touchOn strip [400], page\<lparr>activeElement := Some textField\<rparr>))"
proof -
  let ?g = "\<lparr>scrollHeight = 100, clientHeight = 100, scrollWidth = 900, clientWidth = 300\<rparr>"
  have n: "nearestMarked (body page) (target (touchOn strip [50])) =
      Some (Element 5 [''scrollable''] ?g (Some bodyElement))"
    by (simp add: nearestMarked_def touchOn_def strip_def page_def)
  have g: "\<not> scrollHeight ?g > clientHeight ?g" "scrollWidth ?g > clientWidth ?g"
    by simp_all
  from horizontal_only_never_suppressed [OF n g, of True]
  have "\<exists>c w'. preventScrollBugsIfNeeded (touchOn strip [50]) True page = Inr (c, w') \<and>
      onTouchMove c (touchOn strip [400]) (page\<lparr>activeElement := Some textField\<rparr>) =
        Inr (touchOn strip [400], page\<lparr>activeElement := Some textField\<rparr>)"
    by blast
  moreover have "nearestMarked (body page) (target (touchOn strip [50])) = Some strip"
    using n by (simp add: strip_def)
  ultimately show ?thesis by blast
qed

section \<open>Faults\<close>

lemma fixScrollEdge_touched:
  assumes "touches ev \<noteq> []" and "hasV \<or> hasH \<longrightarrow> t \<noteq> None"
  shows "\<exists>y ft w1. fixScrollEdge ev t hasV hasH w = Inr (y, ft, w1)"
  using assms
  by (cases "touches ev")
     (auto simp: fixScrollEdge_def split: option.splits node.splits)

lemma guard_touched:
  assumes "touches ev \<noteq> []" and "Document \<notin> set (passed (body w) (target ev))"
  shows "\<exists>c w'. preventScrollBugsIfNeeded ev a w = Inr (c, w')"
proof (cases "findScrollable (body w) (target ev)")
  case (Inl e)
  then show ?thesis using assms(2) findScrollable_fault by blast
next
  case (Inr r)
  obtain t hasV hasH where r: "r = (t, hasV, hasH)" by (cases r) auto
  have "hasV \<or> hasH \<longrightarrow> t \<noteq> None"
    using findScrollable_flags Inr r by blast
  from fixScrollEdge_touched [OF assms(1) this]
  obtain y ft w1 where "fixScrollEdge ev t hasV hasH w = Inr (y, ft, w1)" by blast
  from guard_returns [OF Inr [unfolded r] this refl] show ?thesis by blast
qed

lemma top_start_is_vertical:
  assumes "preventScrollBugsIfNeeded ev a w = Inr (c, w')" and "scrollStartedFromTop c"
  shows "hasVerticalScroll c"
proof -
  from guard_returned [OF assms(1)] obtain t w1 where
    "fixScrollEdge ev t (hasVerticalScroll c) (hasHorizontalScroll c) w =
       Inr (startY c, scrollStartedFromTop c, w1)"
    by blast
  from fixScrollEdge_one_axis [OF this] assms(2) show ?thesis by blast
qed

lemma onTouchMove_touched: "touches mv \<noteq> [] \<Longrightarrow> \<exists>r. onTouchMove c mv w = Inr r"
  by (cases "touches mv") (auto simp: onTouchMove_def)

text \<open>
  C9, as the code has it. Let the walk from the touch target not run into the document
  node: it stops at a marked element or at the body, or the parent chain ends. If the
  touchstart event has a touch point, the invocation returns, and its touchmove handler
  returns on every event that has a touch point. If the touchstart event has no touch
  point and the nearest marked ancestor has vertical scroll and offset 0, the invocation
  ends in a \<open>TypeError\<close>; and the handler of a gesture whose \<open>scrollStartedFromTop\<close> is
  true ends in a \<open>TypeError\<close> on every touchmove event without touch points. Nothing
  catches either fault.
\<close>

theorem first_touch_access:
  assumes "Document \<notin> set (passed (body w) (target ev))"
  shows "(touches ev \<noteq> [] \<longrightarrow>
            (\<exists>c w'. preventScrollBugsIfNeeded ev a w = Inr (c, w') \<and>
               (\<forall>mv w2. touches mv \<noteq> [] \<longrightarrow> (\<exists>r. onTouchMove c mv w2 = Inr r)))) \<and>
         (touches ev = [] \<longrightarrow>
            (\<forall>i cl g p. nearestMarked (body w) (target ev) = Some (Element i cl g p) \<and>
               scrollHeight g > clientHeight g \<and> scrollTop w i = 0 \<longrightarrow>
               preventScrollBugsIfNeeded ev a w = Inl TypeError)) \<and>
         (\<forall>c w' mv w2. preventScrollBugsIfNeeded ev a w = Inr (c, w') \<and>
            scrollStartedFromTop c \<and> touches mv = [] \<longrightarrow>
            onTouchMove c mv w2 = Inl TypeError)"
proof (intro conjI impI allI)
  assume "touches ev \<noteq> []"
  from guard_touched [OF this assms, of a] onTouchMove_touched
  show "\<exists>c w'. preventScrollBugsIfNeeded ev a w = Inr (c, w') \<and>
               (\<forall>mv w2. touches mv \<noteq> [] \<longrightarrow> (\<exists>r. onTouchMove c mv w2 = Inr r))"
    by blast
next
  fix i cl g p
  assume e: "touches ev = []"
    and h: "nearestMarked (body w) (target ev) = Some (Element i cl g p) \<and>
               scrollHeight g > clientHeight g \<and> scrollTop w i = 0"
  have "findScrollable (body w) (target ev) =
      Inr (Some (Element i cl g p), True, scrollWidth g > clientWidth g)"
    using findScrollable_nearest [of "body w" "target ev"] h by simp
  moreover have "fixScrollEdge ev (Some (Element i cl g p)) True (scrollWidth g > clientWidth g) w =
      Inl TypeError"
    using e h by (simp add: fixScrollEdge_vertical)
  ultimately show "preventScrollBugsIfNeeded ev a w = Inl TypeError"
    by (rule guard_faults_edge)
next
  fix c w' and mv :: touch_event and w2 :: world
  assume h: "preventScrollBugsIfNeeded ev a w = Inr (c, w') \<and>
            scrollStartedFromTop c \<and> touches mv = []"
  then have "hasVerticalScroll c" using top_start_is_vertical by blast
  with h show "onTouchMove c mv w2 = Inl TypeError"
    by (simp add: onTouchMove_top)
qed

theorem first_touch_access_witness:
  "Document \<notin> set (passed (body page) (target (touchOn row [120]))) \<and>
   (\<exists>c w'. preventScrollBugsIfNeeded (touchOn row [120]) False page = Inr (c, w') \<and>
      (\<exists>r. onTouchMove c (touchOn row [130]) page = Inr r) \<and>
      onTouchMove c (touchOn row []) page = Inl TypeError) \<and>
   preventScrollBugsIfNeeded (touchOn row []) False page = Inl TypeError"
proof -
  let ?g = "\<lparr>scrollHeight = 500, clientHeight = 200, scrollWidth = 300, clientWidth = 300\<rparr>"
  have d: "Document \<notin> set (passed (body page) (target (touchOn row ys)))" for ys
    by (simp add: passed_def touchOn_def row_def pane_def page_def)
  have n: "nearestMarked (body page) (target (touchOn row [])) =
      Some (Element 3 [''panel'', ''scrollable''] ?g (Some outerPane)) \<and>
      scrollHeight ?g > clientHeight ?g \<and> scrollTop page 3 = 0"
    by (simp add: nearestMarked_def touchOn_def row_def pane_def page_def)
  have t: "touches (touchOn row [120]) \<noteq> []" "touches (touchOn row [130]) \<noteq> []"
    "touches (touchOn row []) = []"
    by (simp_all add: touchOn_def)
  from first_touch_access [OF d, of "[120]" False] t
  obtain c w' where r: "preventScrollBugsIfNeeded (touchOn row [120]) False page = Inr (c, w')"
    and m: "\<exists>r. onTouchMove c (touchOn row [130]) page = Inr r"
    by blast
  have "fixScrollEdge (touchOn row [120]) (Some pane) True False page =
      Inr (120, True, page\<lparr>scrollTop := (scrollTop page)(3 := 1)\<rparr>)"
    by (simp add: fixScrollEdge_def pane_def page_def touchOn_def)
  moreover have "findScrollable (body page) (target (touchOn row [120])) =
      Inr (Some pane, True, False)"
    by (simp add: touchOn_def row_def pane_def page_def)
  ultimately have "scrollStartedFromTop c"
    using guard_returned [OF r] by auto
  with first_touch_access [OF d, of "[120]" False] r t(3)
  have z: "onTouchMove c (touchOn row []) page = Inl TypeError"
    by blast
  from first_touch_access [OF d, of "[]" False] n t(3)
  have "preventScrollBugsIfNeeded (touchOn row []) False page = Inl TypeError"
    by blast
  with d r m z show ?thesis by blast
qed

text \<open>
  The claim as the specification states it asks for no more than a touch point. A touch on
  the root element has one, and the invocation still ends in a \<open>TypeError\<close>: the walk
  goes from the root element to the document node, which has no class list.
\<close>

theorem root_element_touch_faults:
  "touches (touchOn documentElement [100]) \<noteq> [] \<and>
   preventScrollBugsIfNeeded (touchOn documentElement [100]) False page = Inl TypeError"
  by (simp add: touchOn_def documentElement_def page_def preventScrollBugsIfNeeded_def)

section \<open>The listeners of a gesture\<close>

lemma gesture_listeners:
  assumes "preventScrollBugsIfNeeded ev a w = Inr (c, w')"
  shows "listeners w' = listeners w @ [moveListener c, endListener c]"
    and "onTouchEnd c w' = w'\<lparr>listeners := listeners w @ [endListener c]\<rparr>"
proof -
  from guard_returned [OF assms] obtain t w1 where
    w': "w' = w1\<lparr>listeners := listeners w @ [moveListener c, endListener c]\<rparr>"
    and f: "fnId c = freshId (listeners w)"
    by blast
  show l: "listeners w' = listeners w @ [moveListener c, endListener c]"
    using w' by simp
  from touchEnd_fresh [OF f l] show "onTouchEnd c w' = w'\<lparr>listeners := listeners w @ [endListener c]\<rparr>" .
qed

lemma hideKeyborad_listeners: "listeners (hideKeyboradIfNeeded w) = listeners w"
  by (simp add: hideKeyboradIfNeeded_def blur_def Let_def split: option.splits)

lemma onTouchMove_listeners:
  "onTouchMove c mv w = Inr (mv', w2) \<Longrightarrow> listeners w2 = listeners w"
  by (auto simp: onTouchMove_def alwaysPreventBranch_def hideKeyborad_listeners
      split: if_splits list.splits)

text \<open>
  C5, evaluated. On a page whose body has no listeners, a touch on the row registers one
  touchmove and one touchend listener. The touchend handler then removes the touchmove
  listener only: it asks for a touchend listener without capture, and the one registered
  has capture, so that one stays, with or without a touchmove in between. The next
  gesture, a touch on the banner, starts with the leftover in the list and ends up with
  three listeners.
\<close>

theorem touchend_listener_left_behind:
  "\<exists>c w1. preventScrollBugsIfNeeded (touchOn row [120]) False page = Inr (c, w1) \<and>
      listeners w1 = [moveListener c, endListener c] \<and>
      listeners (onTouchEnd c w1) = [endListener c] \<and>
      (\<exists>mv wm. onTouchMove c (touchOn row [150]) w1 = Inr (mv, wm) \<and>
         listeners (onTouchEnd c wm) = [endListener c]) \<and>
      (\<exists>c2 w2. preventScrollBugsIfNeeded (touchOn banner [80]) False (onTouchEnd c w1) =
                  Inr (c2, w2) \<and>
         listeners w2 = [endListener c, moveListener c2, endListener c2])"
proof -
  have d: "Document \<notin> set (passed (body page) (target (touchOn row [120])))"
    by (simp add: passed_def touchOn_def row_def pane_def page_def)
  have "touches (touchOn row [120]) \<noteq> []" by (simp add: touchOn_def)
  from guard_touched [OF this d, of False]
  obtain c w1 where r: "preventScrollBugsIfNeeded (touchOn row [120]) False page = Inr (c, w1)"
    by blast
  have l1: "listeners w1 = [moveListener c, endListener c]"
    and e1: "onTouchEnd c w1 = w1\<lparr>listeners := [endListener c]\<rparr>"
    using gesture_listeners [OF r] by (simp_all add: page_def)
  have f: "fnId c = freshId []"
    using guard_returned [OF r] by (auto simp: page_def)
  have "touches (touchOn row [150]) \<noteq> []" by (simp add: touchOn_def)
  from onTouchMove_touched [OF this, of c w1]
  obtain mv wm where m: "onTouchMove c (touchOn row [150]) w1 = Inr (mv, wm)"
    by auto
  have "listeners wm = [] @ [moveListener c, endListener c]"
    using onTouchMove_listeners [OF m] l1 by simp
  from touchEnd_fresh [OF f this]
  have em: "listeners (onTouchEnd c wm) = [endListener c]"
    by simp
  have "body w1 = 0"
    using guard_returned [OF r] fixScrollEdge_frame by (fastforce simp: page_def)
  then have b: "body (onTouchEnd c w1) = 0" using e1 by simp
  have d2: "Document \<notin> set (passed (body (onTouchEnd c w1)) (target (touchOn banner [80])))"
    using b by (simp add: passed_def touchOn_def banner_def bodyElement_def)
  have "touches (touchOn banner [80]) \<noteq> []" by (simp add: touchOn_def)
  from guard_touched [OF this d2, of False]
  obtain c2 w2 where
    r2: "preventScrollBugsIfNeeded (touchOn banner [80]) False (onTouchEnd c w1) = Inr (c2, w2)"
    by blast
  have "listeners w2 = [endListener c, moveListener c2, endListener c2]"
    using gesture_listeners(1) [OF r2] e1 by simp
  with r l1 e1 m em r2 show ?thesis by auto
qed

end
